theory Spec2Isabelle
  imports Complex_Main
begin

section \<open>JavaScript values\<close>

text \<open>
  The callbacks of the customer-service agent work on plain structured data: tool
  arguments, tool responses and the parsed customer profile. A value is a scalar, an
  array or a plain object. An object is kept as the list of its own entries, in the
  order \<^verbatim>\<open>Object.entries\<close> yields them. Numbers are exact rationals: \<^verbatim>\<open>NaN\<close> and
  the infinities are not values of the model, and where a conversion of the source can
  produce \<^verbatim>\<open>NaN\<close> the model returns \<open>None\<close>.
\<close>

datatype jsval =
    JUndefined
  | JNull
  | JBool bool
  | JNum rat
  | JStr string
  | JArr "jsval list"
  | JObj "(string \<times> jsval) list"

text \<open>
  Writing an own data property \<open>k\<close>: an existing one keeps its place, a new one is
  added last.
\<close>

fun setProp :: "string \<Rightarrow> jsval \<Rightarrow> (string \<times> jsval) list \<Rightarrow> (string \<times> jsval) list" where
  "setProp k v [] = [(k, v)]"
| "setProp k v ((k', v') # ps) = (if k' = k then (k, v) # ps else (k', v') # setProp k v ps)"

text \<open>
  \<^verbatim>\<open>obj[k] = v\<close> on an ordinary object, as an assignment really behaves: the name
  \<^verbatim>\<open>__proto__\<close> reaches the accessor that \<^verbatim>\<open>Object.prototype\<close> defines under it.
  Its setter replaces the prototype of \<open>obj\<close> when \<open>v\<close> is an object or \<^verbatim>\<open>null\<close>
  and does nothing otherwise; in neither case does \<open>obj\<close> get an own property. The
  model keeps the own entries of an object, which is what \<^verbatim>\<open>Object.entries\<close>,
  \<^verbatim>\<open>Object.assign\<close> and \<^verbatim>\<open>JSON.stringify\<close> see; the prototype is not part of it.
\<close>

definition assignProp :: "string \<Rightarrow> jsval \<Rightarrow> (string \<times> jsval) list \<Rightarrow> (string \<times> jsval) list" where
  "assignProp k v ps = (if k = ''__proto__'' then ps else setProp k v ps)"

text \<open>
  \<^verbatim>\<open>k in obj\<close> and \<^verbatim>\<open>obj[k]\<close> on the entries of a plain object. The callbacks
  apply them to the argument object, which is refilled in place and keeps the ordinary
  prototype, to a tool response and to the parsed profile, and under names that the
  ordinary prototype does not define.
\<close>

definition hasKey :: "string \<Rightarrow> (string \<times> jsval) list \<Rightarrow> bool" where
  "hasKey k ps = (k \<in> set (map fst ps))"

definition getKey :: "(string \<times> jsval) list \<Rightarrow> string \<Rightarrow> jsval" where
  "getKey ps k = (case map_of ps k of None \<Rightarrow> JUndefined | Some v \<Rightarrow> v)"

text \<open>
  An entry list stands for an object when no key occurs twice, at every level of the
  tree.
\<close>

fun wfValue :: "jsval \<Rightarrow> bool" where
  "wfValue (JArr xs) = list_all wfValue xs"
| "wfValue (JObj ps) = (distinct (map fst ps) \<and> list_all (\<lambda>p. wfValue (snd p)) ps)"
| "wfValue v = True"

section \<open>The runtime\<close>

text \<open>
  The runtime's own functions that the callbacks call and that are no code of this
  repository are parameters of the model: \<^verbatim>\<open>JSON.parse\<close> (\<open>None\<close> when it throws),
  \<^verbatim>\<open>JSON.stringify(v, null, indent)\<close>, the conversions between numbers and strings
  (\<open>None\<close> for \<^verbatim>\<open>NaN\<close>), and the Unicode case conversion behind
  \<^verbatim>\<open>String.prototype.toLowerCase\<close>.
\<close>

record runtime =
  json_parse :: "string \<Rightarrow> jsval option"
  json_stringify :: "jsval \<Rightarrow> nat \<Rightarrow> string"
  number_to_string :: "rat \<Rightarrow> string"
  string_to_number :: "string \<Rightarrow> rat option"
  unicode_lower :: "string \<Rightarrow> string"

section \<open>Argument normalizer (callbacks.ts, lowercaseValue)\<close>

text \<open>
  \<^verbatim>\<open>String.prototype.toLowerCase\<close>. A \<open>string\<close> of the model is the UTF-8 text of
  the JavaScript string. On ASCII text the conversion is known in full: the letters A
  to Z go to a to z and every other character stays. On text with any other character
  it is the runtime's Unicode case conversion.
\<close>

definition isAscii :: "char \<Rightarrow> bool" where
  "isAscii c = ((of_char c :: nat) < 128)"

definition lowerChar :: "char \<Rightarrow> char" where
  "lowerChar c =
     (let n = (of_char c :: nat) in if 65 \<le> n \<and> n \<le> 90 then char_of (n + 32) else c)"

definition toLowerCase :: "runtime \<Rightarrow> string \<Rightarrow> string" where
  "toLowerCase rt s = (if list_all isAscii s then map lowerChar s else unicode_lower rt s)"

text \<open>
  \<^verbatim>\<open>
  function lowercaseValue(value: unknown): unknown {
    if (value && typeof value === 'object' && !Array.isArray(value)) {
      const newDict: Record<string, unknown> = {};
      for (const [k, v] of Object.entries(value as Record<string, unknown>)) {
        newDict[k] = lowercaseValue(v);
      }
      return newDict;
    } else if (typeof value === 'string') {
      return value.toLowerCase();
    } else if (Array.isArray(value)) {
      return value.map((i) => lowercaseValue(i));
    } else {
      return value;
    }
  }
  \<close>
  \<^verbatim>\<open>null\<close> is falsy, so it misses the first branch and reaches the last one.
  \<^verbatim>\<open>newDict\<close> starts as an ordinary empty object, so an entry of the argument
  under the key \<^verbatim>\<open>__proto__\<close> (an own property there, as \<^verbatim>\<open>JSON.parse\<close> makes it)
  is assigned through the accessor and leaves no entry in \<^verbatim>\<open>newDict\<close>.
\<close>

fun lowercaseValue :: "runtime \<Rightarrow> jsval \<Rightarrow> jsval" where
  "lowercaseValue rt (JObj ps) =
     JObj (fold (\<lambda>p newDict. assignProp (fst p) (lowercaseValue rt (snd p)) newDict) ps [])"
| "lowercaseValue rt (JStr s) = JStr (toLowerCase rt s)"
| "lowercaseValue rt (JArr xs) = JArr (map (lowercaseValue rt) xs)"
| "lowercaseValue rt v = v"


text \<open>
  What normalization is measured against: the shape of a tree (arrays with their length
  and order, objects with their keys, every scalar erased to a leaf) and the sequence
  of its scalar leaves, left to right. The two together determine the tree.
\<close>

datatype shape = SLeaf | SArr "shape list" | SObj "(string \<times> shape) list"

fun shapeOf :: "jsval \<Rightarrow> shape" where
  "shapeOf (JArr xs) = SArr (map shapeOf xs)"
| "shapeOf (JObj ps) = SObj (map (\<lambda>p. (fst p, shapeOf (snd p))) ps)"
| "shapeOf v = SLeaf"

fun leaves :: "jsval \<Rightarrow> jsval list" where
  "leaves (JArr xs) = concat (map leaves xs)"
| "leaves (JObj ps) = concat (map (\<lambda>p. leaves (snd p)) ps)"
| "leaves v = [v]"

fun lowerLeaf :: "runtime \<Rightarrow> jsval \<Rightarrow> jsval" where
  "lowerLeaf rt (JStr s) = JStr (toLowerCase rt s)"
| "lowerLeaf rt v = v"

text \<open>No object of the tree has an entry under the key \<^verbatim>\<open>__proto__\<close>.\<close>

fun noProtoKey :: "jsval \<Rightarrow> bool" where
  "noProtoKey (JArr xs) = list_all noProtoKey xs"
| "noProtoKey (JObj ps) =
     (''__proto__'' \<notin> set (map fst ps) \<and> list_all (\<lambda>p. noProtoKey (snd p)) ps)"
| "noProtoKey v = True"

section \<open>Coercions of the language\<close>

text \<open>Truthiness, \<^verbatim>\<open>a || b\<close>, and \<^verbatim>\<open>a === b\<close> between two separately built values
  (two arrays or two objects are never the same reference).\<close>

fun truthy :: "jsval \<Rightarrow> bool" where
  "truthy JUndefined = False"
| "truthy JNull = False"
| "truthy (JBool b) = b"
| "truthy (JNum n) = (n \<noteq> 0)"
| "truthy (JStr s) = (s \<noteq> [])"
| "truthy (JArr xs) = True"
| "truthy (JObj ps) = True"

definition jsOr :: "jsval \<Rightarrow> jsval \<Rightarrow> jsval" where
  "jsOr a b = (if truthy a then a else b)"

fun strictEq :: "jsval \<Rightarrow> jsval \<Rightarrow> bool" where
  "strictEq (JArr xs) b = False"
| "strictEq (JObj ps) b = False"
| "strictEq a b = (a = b)"

text \<open>\<^verbatim>\<open>v[k]\<close> for the property names the callbacks read; only a plain object has them.\<close>

fun getProp :: "jsval \<Rightarrow> string \<Rightarrow> jsval" where
  "getProp (JObj ps) k = getKey ps k"
| "getProp v k = JUndefined"

fun joinWith :: "string \<Rightarrow> string list \<Rightarrow> string" where
  "joinWith sep [] = []"
| "joinWith sep [s] = s"
| "joinWith sep (s # t # ss) = s @ sep @ joinWith sep (t # ss)"

text \<open>The string a template literal puts in for an interpolated value.\<close>

fun toStr :: "runtime \<Rightarrow> jsval \<Rightarrow> string" where
  "toStr rt JUndefined = ''undefined''"
| "toStr rt JNull = ''null''"
| "toStr rt (JBool b) = (if b then ''true'' else ''false'')"
| "toStr rt (JNum n) = number_to_string rt n"
| "toStr rt (JStr s) = s"
| "toStr rt (JArr xs) =
     joinWith '','' (map (\<lambda>x. if x = JUndefined \<or> x = JNull then [] else toStr rt x) xs)"
| "toStr rt (JObj ps) = ''[object Object]''"

text \<open>\<^verbatim>\<open>Number(v)\<close>.\<close>

fun toNumber :: "runtime \<Rightarrow> jsval \<Rightarrow> rat option" where
  "toNumber rt JUndefined = None"
| "toNumber rt JNull = Some 0"
| "toNumber rt (JBool b) = Some (if b then 1 else 0)"
| "toNumber rt (JNum n) = Some n"
| "toNumber rt (JStr s) = string_to_number rt s"
| "toNumber rt (JArr xs) = string_to_number rt (toStr rt (JArr xs))"
| "toNumber rt (JObj ps) = None"

section \<open>Session state\<close>

text \<open>
  The session's key-value store, read through \<^verbatim>\<open>has\<close>, \<^verbatim>\<open>get<T>\<close> and \<^verbatim>\<open>set\<close>.
  The callbacks use three keys, each at one type: \<^verbatim>\<open>timer_start\<close> and
  \<^verbatim>\<open>request_count\<close> (numbers) and \<^verbatim>\<open>customer_profile\<close> (a string). A field is
  \<open>None\<close> when \<^verbatim>\<open>has\<close> answers false for its key.
\<close>

record session_state =
  timer_start :: "rat option"
  request_count :: "rat option"
  customer_profile :: "string option"

text \<open>\<^verbatim>\<open>state.get<number>(key) || d\<close>: a missing value and the number zero both give \<open>d\<close>.\<close>

definition getNumOr :: "rat option \<Rightarrow> rat \<Rightarrow> rat" where
  "getNumOr v d = (case v of None \<Rightarrow> d | Some n \<Rightarrow> if n = 0 then d else n)"


section \<open>Rate limiter (callbacks.ts, rateLimitCallback)\<close>

text \<open>
  An outbound request: \<^verbatim>\<open>contents\<close> may be missing, a content may have no
  \<^verbatim>\<open>parts\<close>, and a part may or may not carry \<^verbatim>\<open>text\<close>.
\<close>

datatype part = Part (part_text: "string option")

datatype content = Content (parts: "part list option")

datatype llm_request = LlmRequest (contents: "content list option")

definition RATE_LIMIT_SECS :: rat where
  "RATE_LIMIT_SECS = 60"

definition RPM_QUOTA :: rat where
  "RPM_QUOTA = 10"

text \<open>
  \<^verbatim>\<open>
  for (const content of llmRequest.contents) {
    if (content.parts) {
      for (const part of content.parts) {
        if ('text' in part && part.text === '') { part.text = ' '; }
      }
    }
  }
  \<close>
\<close>

definition fixPart :: "part \<Rightarrow> part" where
  "fixPart p = (if part_text p = Some [] then Part (Some '' '') else p)"

definition fixContent :: "content \<Rightarrow> content" where
  "fixContent c = (case parts c of None \<Rightarrow> c | Some ps \<Rightarrow> Content (Some (map fixPart ps)))"

text \<open>
  What one call of the callback does: the request as it leaves the call, the session
  state as it leaves the call, the time the caller was suspended for (in seconds;
  \<open>None\<close> when the call does not wait), and the value the promise resolves to, which
  is \<^verbatim>\<open>undefined\<close> on every path, so the model call goes ahead.
\<close>

record rate_outcome =
  rl_request :: "llm_request option"
  rl_state :: session_state
  rl_sleep :: "rat option"
  rl_return :: jsval

text \<open>
  The local values of the call, as the source computes them:
  \<^verbatim>\<open>
  const requestCount = (callbackContext.state.get<number>('request_count') || 0) + 1;
  const timerStart = callbackContext.state.get<number>('timer_start') || now;
  const elapsedSecs = now - timerStart;
  \<close>
\<close>

definition requestCount :: "session_state \<Rightarrow> rat" where
  "requestCount st = getNumOr (request_count st) 0 + 1"

definition elapsedSecs :: "session_state \<Rightarrow> rat \<Rightarrow> rat" where
  "elapsedSecs st now = now - getNumOr (timer_start st) now"

text \<open>
  The callback reads the clock (\<^verbatim>\<open>Date.now() / 1000\<close>) once on entry, \<open>now\<close>, and
  once more when it resets the window after the wait, \<open>now2\<close>.
  \<^verbatim>\<open>
  if (!llmRequest || !llmRequest.contents) { return undefined; }
  ...
  const now = Date.now() / 1000;
  if (!callbackContext.state.has('timer_start')) {
    callbackContext.state.set('timer_start', now);
    callbackContext.state.set('request_count', 1);
    return undefined;
  }
  ...
  if (requestCount > RPM_QUOTA) {
    const delay = RATE_LIMIT_SECS - elapsedSecs + 1;
    if (delay > 0) {
      await new Promise((resolve) => setTimeout(resolve, delay * 1000));
    }
    callbackContext.state.set('timer_start', Date.now() / 1000);
    callbackContext.state.set('request_count', 1);
  } else {
    callbackContext.state.set('request_count', requestCount);
  }
  return undefined;
  \<close>
\<close>

definition rateLimitCallback ::
  "session_state \<Rightarrow> llm_request option \<Rightarrow> rat \<Rightarrow> rat \<Rightarrow> rate_outcome" where
  "rateLimitCallback st llmRequest now now2 =
     (case llmRequest of
        None \<Rightarrow> \<lparr>rl_request = llmRequest, rl_state = st, rl_sleep = None, rl_return = JUndefined\<rparr>
      | Some req \<Rightarrow>
         (case contents req of
            None \<Rightarrow>
              \<lparr>rl_request = llmRequest, rl_state = st, rl_sleep = None, rl_return = JUndefined\<rparr>
          | Some cs \<Rightarrow>
             (let req' = Some (LlmRequest (Some (map fixContent cs))) in
              if timer_start st = None then
                \<lparr>rl_request = req',
                 rl_state = st\<lparr>timer_start := Some now, request_count := Some 1\<rparr>,
                 rl_sleep = None, rl_return = JUndefined\<rparr>
              else if requestCount st > RPM_QUOTA then
                (let delay = RATE_LIMIT_SECS - elapsedSecs st now + 1 in
                 \<lparr>rl_request = req',
                  rl_state = st\<lparr>timer_start := Some now2, request_count := Some 1\<rparr>,
                  rl_sleep = (if delay > 0 then Some delay else None),
                  rl_return = JUndefined\<rparr>)
              else
                \<lparr>rl_request = req',
                 rl_state = st\<lparr>request_count := Some (requestCount st)\<rparr>,
                 rl_sleep = None, rl_return = JUndefined\<rparr>)))"

text \<open>
  A session's life as the limiter sees it: one call after the other, each on the state
  the one before left. A call is the request with its two clock readings.
\<close>

type_synonym rate_call = "llm_request option \<times> rat \<times> rat"

fun runCalls :: "session_state \<Rightarrow> rate_call list \<Rightarrow> rate_outcome list" where
  "runCalls st [] = []"
| "runCalls st ((rq, now, now2) # cs) =
     (let r = rateLimitCallback st rq now now2 in r # runCalls (rl_state r) cs)"

definition hasContents :: "rate_call \<Rightarrow> bool" where
  "hasContents c = (case fst c of None \<Rightarrow> False | Some req \<Rightarrow> contents req \<noteq> None)"

text \<open>
  Two measures of a rate window, used to follow it from call to call: the window has
  room for \<open>n\<close> more calls without a wait, and the window is established with a
  stored count within the quota.
\<close>

definition fits :: "session_state \<Rightarrow> nat \<Rightarrow> bool" where
  "fits st n =
     (timer_start st = None \<and> n \<le> 10
      \<or> timer_start st \<noteq> None \<and> getNumOr (request_count st) 0 + of_nat n \<le> 10)"

definition windowOk :: "session_state \<Rightarrow> bool" where
  "windowOk st =
     (timer_start st \<noteq> None
      \<and> (case request_count st of None \<Rightarrow> False | Some c \<Rightarrow> 1 \<le> c \<and> c \<le> 10))"

section \<open>Customer entity (entities/customer.ts)\<close>

text \<open>
  The constructor copies fifteen fields from its argument, one after the other; reading
  a field of \<^verbatim>\<open>null\<close> or \<^verbatim>\<open>undefined\<close> throws a TypeError (\<open>None\<close>).
\<close>

definition newCustomer :: "jsval \<Rightarrow> jsval option" where
  "newCustomer data =
     (if data = JUndefined \<or> data = JNull then None
      else Some (JObj
        [(''account_number'', getProp data ''account_number''),
         (''customer_id'', getProp data ''customer_id''),
         (''customer_first_name'', getProp data ''customer_first_name''),
         (''customer_last_name'', getProp data ''customer_last_name''),
         (''email'', getProp data ''email''),
         (''phone_number'', getProp data ''phone_number''),
         (''customer_start_date'', getProp data ''customer_start_date''),
         (''years_as_customer'', getProp data ''years_as_customer''),
         (''billing_address'', getProp data ''billing_address''),
         (''purchase_history'', getProp data ''purchase_history''),
         (''loyalty_points'', getProp data ''loyalty_points''),
         (''preferred_store'', getProp data ''preferred_store''),
         (''communication_preferences'', getProp data ''communication_preferences''),
         (''garden_profile'', getProp data ''garden_profile''),
         (''scheduled_appointments'', jsOr (getProp data ''scheduled_appointments'') (JObj []))]))"

text \<open>\<^verbatim>\<open>toJson(): string { return JSON.stringify(this, null, 4); }\<close>\<close>

definition toJson :: "runtime \<Rightarrow> jsval \<Rightarrow> string" where
  "toJson rt c = json_stringify rt c 4"

definition purchasedItem :: "string \<Rightarrow> string \<Rightarrow> rat \<Rightarrow> jsval" where
  "purchasedItem pid nm q =
     JObj [(''product_id'', JStr pid), (''name'', JStr nm), (''quantity'', JNum q)]"

definition purchase :: "string \<Rightarrow> jsval list \<Rightarrow> rat \<Rightarrow> jsval" where
  "purchase d items amount =
     JObj [(''date'', JStr d), (''items'', JArr items), (''total_amount'', JNum amount)]"

text \<open>\<^verbatim>\<open>Customer.getCustomer\<close>: the same dummy customer for every id, under that id.\<close>

definition getCustomer :: "string \<Rightarrow> jsval option" where
  "getCustomer currentCustomerId = newCustomer (JObj
     [(''customer_id'', JStr currentCustomerId),
      (''account_number'', JStr ''428765091''),
      (''customer_first_name'', JStr ''Alex''),
      (''customer_last_name'', JStr ''Johnson''),
      (''email'', JStr ''alex.johnson@example.com''),
      (''phone_number'', JStr ''+1-702-555-1212''),
      (''customer_start_date'', JStr ''2022-06-10''),
      (''years_as_customer'', JNum 2),
      (''billing_address'', JObj
         [(''street'', JStr ''123 Main St''), (''city'', JStr ''Anytown''),
          (''state'', JStr ''CA''), (''zip'', JStr ''12345'')]),
      (''purchase_history'', JArr
         [purchase ''2023-03-05''
            [purchasedItem ''fert-111'' ''All-Purpose Fertilizer'' 1,
             purchasedItem ''trowel-222'' ''Gardening Trowel'' 1] (3598 / 100),
          purchase ''2023-07-12''
            [purchasedItem ''seeds-333'' ''Tomato Seeds (Variety Pack)'' 2,
             purchasedItem ''pots-444'' ''Terracotta Pots (6-inch)'' 4] (425 / 10),
          purchase ''2024-01-20''
            [purchasedItem ''gloves-555'' ''Gardening Gloves (Leather)'' 1,
             purchasedItem ''pruner-666'' ''Pruning Shears'' 1] (5525 / 100)]),
      (''loyalty_points'', JNum 133),
      (''preferred_store'', JStr ''Anytown Garden Store''),
      (''communication_preferences'', JObj
         [(''email'', JBool True), (''sms'', JBool False), (''push_notifications'', JBool True)]),
      (''garden_profile'', JObj
         [(''type'', JStr ''backyard''), (''size'', JStr ''medium''),
          (''sun_exposure'', JStr ''full sun''), (''soil_type'', JStr ''unknown''),
          (''interests'', JArr [JStr ''flowers'', JStr ''vegetables''])]),
      (''scheduled_appointments'', JObj [])])"


section \<open>Customer-identity guard (callbacks.ts, validateCustomerId)\<close>

definition noProfileMessage :: string where
  "noProfileMessage = ''No customer profile selected. Please select a profile.''"

definition emptyProfileMessage :: string where
  "emptyProfileMessage = ''Customer profile is empty.''"

definition parseErrorMessage :: string where
  "parseErrorMessage = ''Customer profile couldn't be parsed. Please reload the customer data.''"

definition mismatchMessage :: "runtime \<Rightarrow> jsval \<Rightarrow> jsval \<Rightarrow> string" where
  "mismatchMessage rt customerId boundId =
     ''You cannot use the tool with customer_id '' @ toStr rt customerId
       @ '', only for '' @ toStr rt boundId @ ''.''"

text \<open>
  \<^verbatim>\<open>
  if (!sessionState.has('customer_profile')) {
    return [false, 'No customer profile selected. Please select a profile.'];
  }
  try {
    const profileJson = sessionState.get<string>('customer_profile');
    if (!profileJson) { return [false, 'Customer profile is empty.']; }
    const profileData = JSON.parse(profileJson);
    const c = new Customer(profileData);
    if (customerId === c.customer_id) { return [true, null]; }
    else { return [false, <the mismatch message>]; }
  } catch (e) {
    return [false, "Customer profile couldn't be parsed. Please reload the customer data."];
  }
  \<close>
  The result is the pair the source returns; \<open>None\<close> is its \<^verbatim>\<open>null\<close>.
\<close>

definition validateCustomerId :: "runtime \<Rightarrow> jsval \<Rightarrow> session_state \<Rightarrow> bool \<times> string option" where
  "validateCustomerId rt customerId sessionState =
     (case customer_profile sessionState of
        None \<Rightarrow> (False, Some noProfileMessage)
      | Some profileJson \<Rightarrow>
          if profileJson = [] then (False, Some emptyProfileMessage)
          else
            (case json_parse rt profileJson of
               None \<Rightarrow> (False, Some parseErrorMessage)
             | Some profileData \<Rightarrow>
                 (case newCustomer profileData of
                    None \<Rightarrow> (False, Some parseErrorMessage)
                  | Some c \<Rightarrow>
                      if strictEq customerId (getProp c ''customer_id'') then (True, None)
                      else (False,
                            Some (mismatchMessage rt customerId (getProp c ''customer_id''))))))"

section \<open>Discount tools (tools/tools.ts) and their registration (tools/function_tools.ts)\<close>

text \<open>
  \<^verbatim>\<open>
  export function approveDiscount({discountType, value, reason}): StatusResponse {
    if (value > 10) {
      return { status: 'rejected', message: 'discount too large. Must be 10 or less.' };
    }
    return { status: 'ok' };
  }
  export function syncAskForApproval({discountType, value, reason}): StatusResponse {
    return { status: 'approved' };
  }
  \<close>
\<close>

definition approveDiscount :: "string \<Rightarrow> rat \<Rightarrow> string \<Rightarrow> jsval" where
  "approveDiscount discountType v reason =
     (if v > 10 then
        JObj [(''status'', JStr ''rejected''),
              (''message'', JStr ''discount too large. Must be 10 or less.'')]
      else JObj [(''status'', JStr ''ok'')])"

definition syncAskForApproval :: "string \<Rightarrow> rat \<Rightarrow> string \<Rightarrow> jsval" where
  "syncAskForApproval discountType v reason = JObj [(''status'', JStr ''approved'')]"

text \<open>
  A tool as the callbacks see it: they read its \<^verbatim>\<open>name\<close>. The agent registers its
  tools in \<^verbatim>\<open>function_tools.ts\<close>, each under the name given there:
  \<^verbatim>\<open>
  export const approveDiscountTool = new FunctionTool({ name: 'approveDiscount', ... });
  export const syncAskForApprovalTool = new FunctionTool({ name: 'syncAskForApproval', ... });
  export const modifyCartTool = new FunctionTool({ name: 'modifyCart', ... });
  \<close>
\<close>

datatype base_tool = BaseTool (name: string)

definition approveDiscountTool :: base_tool where
  "approveDiscountTool = BaseTool ''approveDiscount''"

definition syncAskForApprovalTool :: base_tool where
  "syncAskForApprovalTool = BaseTool ''syncAskForApproval''"

definition modifyCartTool :: base_tool where
  "modifyCartTool = BaseTool ''modifyCart''"

section \<open>Pre-dispatch hook (callbacks.ts, beforeTool)\<close>

definition approvedWithoutManager :: jsval where
  "approvedWithoutManager =
     JObj [(''status'', JStr ''approved''),
           (''message'', JStr ''You can approve this discount; no manager needed.'')]"

text \<open>
  \<^verbatim>\<open>
  const lowercasedArgs = lowercaseValue(args) as Record<string, any>;
  for (const key in args) {
    if (Object.prototype.hasOwnProperty.call(args, key)) { delete args[key]; }
  }
  Object.assign(args, lowercasedArgs);
  \<close>
  The argument object is emptied of its own entries and refilled, by assignment, with
  the normalized ones.
\<close>

definition normalizeArgs :: "runtime \<Rightarrow> (string \<times> jsval) list \<Rightarrow> (string \<times> jsval) list" where
  "normalizeArgs rt args =
     (case lowercaseValue rt (JObj args) of
        JObj lowercasedArgs \<Rightarrow> fold (\<lambda>p a. assignProp (fst p) (snd p) a) lowercasedArgs []
      | _ \<Rightarrow> [])"

text \<open>
  \<^verbatim>\<open>
  if ('customer_id' in args) {
    const [valid, err] = validateCustomerId({
      customerId: args['customer_id'], sessionState: toolContext.state });
    if (!valid && err) { return { error: err }; }
  }
  if (tool.name === 'sync_ask_for_approval') {
    const amount = args['value'];
    if (amount !== undefined && Number(amount) <= 10) {
      return { status: 'approved',
               message: 'You can approve this discount; no manager needed.' };
    }
  }
  if (tool.name === 'modify_cart') {
    if (args['items_added'] === true && args['items_removed'] === true) {
      return { result: 'I have added and removed the requested items.' };
    }
  }
  return undefined;
  \<close>
  The hook returns the argument object as it left it, and its result: \<open>None\<close> for
  \<^verbatim>\<open>undefined\<close> (the tool runs), \<open>Some r\<close> when \<open>r\<close> stands in for the tool's result
  (the tool does not run).
\<close>

definition guardError :: "bool \<times> string option \<Rightarrow> string option" where
  "guardError r =
     (case r of (valid, err) \<Rightarrow>
        (case err of None \<Rightarrow> None
         | Some e \<Rightarrow> if \<not> valid \<and> e \<noteq> [] then Some e else None))"

definition beforeTool ::
  "runtime \<Rightarrow> base_tool \<Rightarrow> (string \<times> jsval) list \<Rightarrow> session_state
     \<Rightarrow> (string \<times> jsval) list \<times> jsval option" where
  "beforeTool rt tool args0 st =
     (let args = normalizeArgs rt args0;
          failed = (if hasKey ''customer_id'' args
                    then guardError (validateCustomerId rt (getKey args ''customer_id'') st)
                    else None)
      in (args,
          (case failed of
             Some err \<Rightarrow> Some (JObj [(''error'', JStr err)])
           | None \<Rightarrow>
               if name tool = ''sync_ask_for_approval''
                  \<and> getKey args ''value'' \<noteq> JUndefined
                  \<and> (case toNumber rt (getKey args ''value'') of
                        None \<Rightarrow> False | Some n \<Rightarrow> n \<le> 10)
               then Some approvedWithoutManager
               else if name tool = ''modify_cart''
                  \<and> getKey args ''items_added'' = JBool True
                  \<and> getKey args ''items_removed'' = JBool True
               then Some (JObj [(''result'', JStr ''I have added and removed the requested items.'')])
               else None)))"

section \<open>Post-dispatch hook (callbacks.ts, afterTool)\<close>

text \<open>
  \<^verbatim>\<open>
  if (tool.name === 'sync_ask_for_approval') {
    if (toolResponse && toolResponse['status'] === 'approved') {
      console.debug('Applying discount to the cart');
      // Actually make changes to the cart
    }
  }
  if (tool.name === 'approve_discount') {
    if (toolResponse && toolResponse['status'] === 'ok') {
      console.debug('Applying discount to the cart');
      // Actually make changes to the cart
    }
  }
  return undefined;
  \<close>
  The outcome keeps the three things the hook could touch: the override it returns, the
  session state, and the lines of the placeholder it writes to the debug console.
\<close>

record after_outcome =
  at_override :: "jsval option"
  at_state :: session_state
  at_debug :: "string list"

definition afterTool ::
  "base_tool \<Rightarrow> (string \<times> jsval) list \<Rightarrow> session_state \<Rightarrow> jsval \<Rightarrow> after_outcome" where
  "afterTool tool args st toolResponse =
     \<lparr>at_override = None,
      at_state = st,
      at_debug =
        (if name tool = ''sync_ask_for_approval''
            \<and> truthy toolResponse \<and> getProp toolResponse ''status'' = JStr ''approved''
         then [''Applying discount to the cart''] else [])
        @ (if name tool = ''approve_discount''
            \<and> truthy toolResponse \<and> getProp toolResponse ''status'' = JStr ''ok''
           then [''Applying discount to the cart''] else [])\<rparr>"

section \<open>Session bootstrap hook (callbacks.ts, beforeAgent)\<close>

text \<open>
  \<^verbatim>\<open>
  if (!callbackContext.state.has('customer_profile')) {
    const customer = Customer.getCustomer('123');
    if (customer) {
      callbackContext.state.set('customer_profile', customer.toJson());
    }
  }
  \<close>
\<close>

definition beforeAgent :: "runtime \<Rightarrow> session_state \<Rightarrow> session_state" where
  "beforeAgent rt st =
     (if customer_profile st = None then
        (case getCustomer ''123'' of
           Some customer \<Rightarrow> st\<lparr>customer_profile := Some (toJson rt customer)\<rparr>
         | None \<Rightarrow> st)
      else st)"

section \<open>Sample inputs\<close>

definition sampleArgs :: jsval where
  "sampleArgs =
     JObj [(''customer_id'', JStr ''ABC''),
           (''items'', JArr [JStr ''Rose'', JNum 3, JBool True, JNull]),
           (''nested'', JObj [(''Key'', JStr ''MiXed'')])]"

definition emptySession :: session_state where
  "emptySession = \<lparr>timer_start = None, request_count = None, customer_profile = None\<rparr>"

definition fullWindow :: session_state where
  "fullWindow = \<lparr>timer_start = Some 100, request_count = Some 10, customer_profile = None\<rparr>"

definition sampleContents :: "content list" where
  "sampleContents = [Content (Some [Part (Some ''hello''), Part (Some [])]), Content None]"

definition sampleRequest :: "llm_request option" where
  "sampleRequest = Some (LlmRequest (Some sampleContents))"

definition sampleCalls :: "rate_call list" where
  "sampleCalls = [(sampleRequest, 100, 100), (sampleRequest, 101, 101), (sampleRequest, 102, 102)]"

text \<open>
  A runtime to run the callbacks on: its \<^verbatim>\<open>JSON.parse\<close> knows two profile texts, of
  a customer with id 123 and of one with id ABC, and rejects every other text.
\<close>

definition sampleProfileJson :: string where
  "sampleProfileJson = ''{customer_id: 123}''"

definition abcProfileJson :: string where
  "abcProfileJson = ''{customer_id: ABC}''"

definition sampleRuntime :: runtime where
  "sampleRuntime =
     \<lparr>json_parse = map_of [(sampleProfileJson, JObj [(''customer_id'', JStr ''123'')]),
                           (abcProfileJson, JObj [(''customer_id'', JStr ''ABC'')])],
      json_stringify = (\<lambda>v indent. sampleProfileJson),
      number_to_string = (\<lambda>n. ''0''),
      string_to_number = (\<lambda>s. None),
      unicode_lower = (\<lambda>s. s)\<rparr>"

definition boundSession :: session_state where
  "boundSession =
     \<lparr>timer_start = None, request_count = None, customer_profile = Some sampleProfileJson\<rparr>"

definition discountArgs :: "rat \<Rightarrow> (string \<times> jsval) list" where
  "discountArgs v =
     [(''discountType'', JStr ''percentage''), (''value'', JNum v),
      (''reason'', JStr ''loyal customer'')]"

definition foreignArgs :: "(string \<times> jsval) list" where
  "foreignArgs = [(''customer_id'', JStr ''999''), (''value'', JNum 5)]"

definition abcSession :: session_state where
  "abcSession =
     \<lparr>timer_start = None, request_count = None, customer_profile = Some abcProfileJson\<rparr>"

definition abcArgs :: "(string \<times> jsval) list" where
  "abcArgs = [(''customer_id'', JStr ''ABC'')]"

definition protoArgs :: jsval where
  "protoArgs =
     JObj [(''__proto__'', JObj [(''x'', JStr ''A'')]), (''Key'', JStr ''VAL'')]"

section \<open>Properties of the argument normalizer\<close>

lemma lowerChar_idem: "lowerChar (lowerChar c) = lowerChar c"
  by (simp add: lowerChar_def Let_def)

lemma isAscii_lowerChar: "isAscii c \<Longrightarrow> isAscii (lowerChar c)"
  by (simp add: isAscii_def lowerChar_def Let_def)

text \<open>On ASCII text the conversion is idempotent whatever the runtime is.\<close>

lemma toLowerCase_ascii_idem:
  "list_all isAscii s \<Longrightarrow> toLowerCase rt (toLowerCase rt s) = toLowerCase rt s"
  by (simp add: toLowerCase_def list_all_iff isAscii_lowerChar lowerChar_idem)

lemma setProp_fresh: "k \<notin> fst ` set acc \<Longrightarrow> setProp k v acc = acc @ [(k, v)]"
  by (induction acc) auto

text \<open>
  Filling an object by assignment from entries with pairwise different keys appends
  them in order, all but the one under \<^verbatim>\<open>__proto__\<close>.
\<close>

lemma fold_assignProp_distinct:
  "distinct (map fst ps) \<Longrightarrow> fst ` set ps \<inter> fst ` set acc = {} \<Longrightarrow>
   fold (\<lambda>p newDict. assignProp (fst p) (f (snd p)) newDict) ps acc
     = acc @ map (\<lambda>p. (fst p, f (snd p))) (filter (\<lambda>p. fst p \<noteq> ''__proto__'') ps)"
proof (induction ps arbitrary: acc)
  case Nil
  then show ?case by simp
next
  case (Cons p ps)
  have d: "distinct (map fst ps)" using Cons.prems(1) by simp
  show ?case
  proof (cases "fst p = ''__proto__''")
    case True
    have disj: "fst ` set ps \<inter> fst ` set acc = {}" using Cons.prems(2) by auto
    show ?thesis using Cons.IH [OF d disj] True by (simp add: assignProp_def)
  next
    case False
    have fresh: "fst p \<notin> fst ` set acc" using Cons.prems(2) by auto
    have disj: "fst ` set ps \<inter> fst ` set (acc @ [(fst p, f (snd p))]) = {}"
      using Cons.prems by auto
    show ?thesis
      using Cons.IH [OF d disj] False by (simp add: assignProp_def setProp_fresh [OF fresh])
  qed
qed

lemma lowercaseValue_obj:
  "distinct (map fst ps) \<Longrightarrow>
   lowercaseValue rt (JObj ps)
     = JObj (map (\<lambda>p. (fst p, lowercaseValue rt (snd p)))
               (filter (\<lambda>p. fst p \<noteq> ''__proto__'') ps))"
  using fold_assignProp_distinct [of ps "[]" "lowercaseValue rt"] by simp

lemma filter_no_proto:
  "''__proto__'' \<notin> set (map fst ps) \<Longrightarrow> filter (\<lambda>p. fst p \<noteq> ''__proto__'') ps = ps"
  by (induction ps) auto

lemma lowercaseValue_obj_no_proto:
  "distinct (map fst ps) \<Longrightarrow> ''__proto__'' \<notin> set (map fst ps) \<Longrightarrow>
   lowercaseValue rt (JObj ps) = JObj (map (\<lambda>p. (fst p, lowercaseValue rt (snd p))) ps)"
  using lowercaseValue_obj [of ps rt] filter_no_proto [of ps] by simp

lemma jsval_tree_induct [case_names Scalar Arr Obj]:
  assumes "\<And>v. (\<forall>xs. v \<noteq> JArr xs) \<Longrightarrow> (\<forall>ps. v \<noteq> JObj ps) \<Longrightarrow> P v"
    and "\<And>xs. (\<And>x. x \<in> set xs \<Longrightarrow> P x) \<Longrightarrow> P (JArr xs)"
    and "\<And>ps. (\<And>p. p \<in> set ps \<Longrightarrow> P (snd p)) \<Longrightarrow> P (JObj ps)"
  shows "P v"
proof (induction v)
  case (JArr xs)
  then show ?case using assms(2) by blast
next
  case (JObj ps)
  have "\<And>p. p \<in> set ps \<Longrightarrow> P (snd p)"
  proof -
    fix p assume "p \<in> set ps"
    moreover have "snd p \<in> Basic_BNFs.snds p" by (cases p) simp
    ultimately show "P (snd p)" using JObj by blast
  qed
  then show ?case using assms(3) by blast
qed (simp_all add: assms(1))

declare lowercaseValue.simps(1) [simp del]

lemma wf_lowercaseValue: "wfValue x \<Longrightarrow> wfValue (lowercaseValue rt x)"
proof (induction x rule: jsval_tree_induct)
  case (Scalar v)
  then show ?case by (cases v) simp_all
next
  case (Arr xs)
  then show ?case by (simp add: list_all_iff)
next
  case (Obj ps)
  then show ?case
    by (simp add: lowercaseValue_obj list_all_iff comp_def distinct_map_filter)
qed

lemma shape_lowercaseValue:
  "wfValue x \<Longrightarrow> noProtoKey x \<Longrightarrow> shapeOf (lowercaseValue rt x) = shapeOf x"
proof (induction x rule: jsval_tree_induct)
  case (Scalar v)
  then show ?case by (cases v) simp_all
next
  case (Arr xs)
  then show ?case by (simp add: list_all_iff)
next
  case (Obj ps)
  then show ?case by (simp add: lowercaseValue_obj_no_proto list_all_iff comp_def)
qed

lemma leaves_lowercaseValue:
  "wfValue x \<Longrightarrow> noProtoKey x \<Longrightarrow>
   leaves (lowercaseValue rt x) = map (lowerLeaf rt) (leaves x)"
proof (induction x rule: jsval_tree_induct)
  case (Scalar v)
  then show ?case by (cases v) simp_all
next
  case (Arr xs)
  have "map (\<lambda>x. leaves (lowercaseValue rt x)) xs
          = map (\<lambda>x. map (lowerLeaf rt) (leaves x)) xs"
    by (rule map_cong) (use Arr in \<open>simp_all add: list_all_iff\<close>)
  then have "concat (map (\<lambda>x. leaves (lowercaseValue rt x)) xs)
               = concat (map (\<lambda>x. map (lowerLeaf rt) (leaves x)) xs)"
    by (rule arg_cong)
  then show ?case by (simp add: map_concat comp_def)
next
  case (Obj ps)
  have "map (\<lambda>p. leaves (lowercaseValue rt (snd p))) ps
          = map (\<lambda>p. map (lowerLeaf rt) (leaves (snd p))) ps"
    by (rule map_cong) (use Obj in \<open>simp_all add: list_all_iff\<close>)
  then have "concat (map (\<lambda>p. leaves (lowercaseValue rt (snd p))) ps)
               = concat (map (\<lambda>p. map (lowerLeaf rt) (leaves (snd p))) ps)"
    by (rule arg_cong)
  then show ?case
    using Obj.prems by (simp add: lowercaseValue_obj_no_proto map_concat comp_def)
qed

text \<open>
  A second pass changes nothing when the conversion itself is idempotent. This holds
  with \<^verbatim>\<open>__proto__\<close> keys too: the first pass has dropped them.
\<close>

lemma lowercaseValue_idem_wf:
  assumes idem: "\<And>s. toLowerCase rt (toLowerCase rt s) = toLowerCase rt s"
  shows "wfValue x \<Longrightarrow> lowercaseValue rt (lowercaseValue rt x) = lowercaseValue rt x"
proof (induction x rule: jsval_tree_induct)
  case (Scalar v)
  then show ?case by (cases v) (simp_all add: idem)
next
  case (Arr xs)
  then show ?case by (simp add: list_all_iff)
next
  case (Obj ps)
  let ?keep = "filter (\<lambda>p. fst p \<noteq> ''__proto__'') ps"
  let ?qs = "map (\<lambda>p. (fst p, lowercaseValue rt (snd p))) ?keep"
  have d: "distinct (map fst ps)" using Obj.prems by simp
  have dq: "distinct (map fst ?qs)" using d by (simp add: comp_def distinct_map_filter)
  have nq: "''__proto__'' \<notin> set (map fst ?qs)" by (auto simp: comp_def)
  have "map (\<lambda>p. (fst p, lowercaseValue rt (snd p))) ?qs = ?qs"
    using Obj by (simp add: comp_def list_all_iff)
  then show ?case
    by (simp only: lowercaseValue_obj [OF d] lowercaseValue_obj_no_proto [OF dq nq])
qed

text \<open>
  What \<open>lowercaseValue\<close> does on the trees without a \<^verbatim>\<open>__proto__\<close> key: it keeps
  the shape (the keys of every object, the length and order of every array), converts
  every string leaf to lower case and leaves every other scalar leaf as it is; and a
  second pass changes nothing, for every tree, when the conversion is idempotent.
\<close>

lemma lowercaseValue_normalizes:
  assumes "wfValue x" and "noProtoKey x"
  shows "shapeOf (lowercaseValue rt x) = shapeOf x
       \<and> leaves (lowercaseValue rt x) = map (lowerLeaf rt) (leaves x)
       \<and> (\<forall>s. lowerLeaf rt (JStr s) = JStr (toLowerCase rt s))
       \<and> (\<forall>v. (\<forall>s. v \<noteq> JStr s) \<longrightarrow> lowerLeaf rt v = v)
       \<and> ((\<forall>s. toLowerCase rt (toLowerCase rt s) = toLowerCase rt s) \<longrightarrow>
            lowercaseValue rt (lowercaseValue rt x) = lowercaseValue rt x)"
proof -
  have "\<forall>v. (\<forall>s. v \<noteq> JStr s) \<longrightarrow> lowerLeaf rt v = v"
  proof (intro allI impI)
    fix v assume "\<forall>s. v \<noteq> JStr s"
    then show "lowerLeaf rt v = v" by (cases v) simp_all
  qed
  then show ?thesis
    using assms shape_lowercaseValue leaves_lowercaseValue lowercaseValue_idem_wf [of rt x]
    by simp
qed

lemma sampleArgs_lowercased:
  "lowercaseValue rt sampleArgs =
     JObj [(''customer_id'', JStr ''abc''),
           (''items'', JArr [JStr ''rose'', JNum 3, JBool True, JNull]),
           (''nested'', JObj [(''Key'', JStr ''mixed'')])]"
  unfolding sampleArgs_def by code_simp

text \<open>
  Claim C3. The claim asks for the same keys in every map. The source copies the
  entries with \<^verbatim>\<open>newDict[k] = lowercaseValue(v)\<close>, and for the key
  \<^verbatim>\<open>__proto__\<close> that assignment does not make an entry: on the argument object
  written \<^verbatim>\<open>{"__proto__": {"x": "A"}, "Key": "VAL"}\<close> the result has the one key
  \<^verbatim>\<open>Key\<close>, so its shape is not the shape of the argument.
\<close>

theorem lowercaseValue_drops_proto_key:
  "wfValue protoArgs
   \<and> lowercaseValue rt protoArgs = JObj [(''Key'', JStr ''val'')]
   \<and> shapeOf protoArgs = SObj [(''__proto__'', SObj [(''x'', SLeaf)]), (''Key'', SLeaf)]
   \<and> shapeOf (lowercaseValue rt protoArgs) = SObj [(''Key'', SLeaf)]
   \<and> shapeOf (lowercaseValue rt protoArgs) \<noteq> shapeOf protoArgs"
proof -
  have l: "lowercaseValue rt protoArgs = JObj [(''Key'', JStr ''val'')]"
    unfolding protoArgs_def by code_simp
  show ?thesis unfolding l by (simp add: protoArgs_def)
qed

section \<open>Properties of the rate limiter\<close>

text \<open>A request without contents passes the limiter untouched, and so does the state.\<close>

lemma rateLimit_skip:
  "\<not> hasContents (rq, now, now2) \<Longrightarrow>
   rateLimitCallback st rq now now2 =
     \<lparr>rl_request = rq, rl_state = st, rl_sleep = None, rl_return = JUndefined\<rparr>"
  by (auto simp: hasContents_def rateLimitCallback_def split: option.splits)

lemma rateLimit_first:
  "hasContents (rq, now, now2) \<Longrightarrow> timer_start st = None \<Longrightarrow>
   rl_state (rateLimitCallback st rq now now2) = st\<lparr>timer_start := Some now, request_count := Some 1\<rparr>
   \<and> rl_sleep (rateLimitCallback st rq now now2) = None
   \<and> rl_return (rateLimitCallback st rq now now2) = JUndefined"
  by (auto simp: hasContents_def rateLimitCallback_def Let_def split: option.splits)

lemma rateLimit_within:
  "hasContents (rq, now, now2) \<Longrightarrow> timer_start st \<noteq> None \<Longrightarrow> requestCount st \<le> RPM_QUOTA \<Longrightarrow>
   rl_state (rateLimitCallback st rq now now2) = st\<lparr>request_count := Some (requestCount st)\<rparr>
   \<and> rl_sleep (rateLimitCallback st rq now now2) = None
   \<and> rl_return (rateLimitCallback st rq now now2) = JUndefined"
  by (auto simp: hasContents_def rateLimitCallback_def Let_def split: option.splits)

lemma rateLimit_over:
  "hasContents (rq, now, now2) \<Longrightarrow> timer_start st \<noteq> None \<Longrightarrow> requestCount st > RPM_QUOTA \<Longrightarrow>
   rl_state (rateLimitCallback st rq now now2) = st\<lparr>timer_start := Some now2, request_count := Some 1\<rparr>
   \<and> rl_sleep (rateLimitCallback st rq now now2)
        = (if RATE_LIMIT_SECS - elapsedSecs st now + 1 > 0
           then Some (RATE_LIMIT_SECS - elapsedSecs st now + 1) else None)
   \<and> rl_return (rateLimitCallback st rq now now2) = JUndefined"
  by (auto simp: hasContents_def rateLimitCallback_def Let_def split: option.splits)

lemma rateLimit_return: "rl_return (rateLimitCallback st rq now now2) = JUndefined"
  by (auto simp: rateLimitCallback_def Let_def split: option.splits)

lemma fits_step:
  assumes "fits st (Suc n)"
  shows "rl_sleep (rateLimitCallback st rq now now2) = None
       \<and> fits (rl_state (rateLimitCallback st rq now now2)) n"
proof (cases "hasContents (rq, now, now2)")
  case False
  then show ?thesis using assms by (auto simp: rateLimit_skip fits_def)
next
  case True
  show ?thesis
  proof (cases "timer_start st = None")
    case True
    with \<open>hasContents (rq, now, now2)\<close> assms show ?thesis
      using rateLimit_first [of rq now now2 st] by (auto simp: fits_def getNumOr_def)
  next
    case False
    then have le: "requestCount st \<le> RPM_QUOTA"
      using assms by (auto simp: fits_def requestCount_def RPM_QUOTA_def)
    show ?thesis
      using rateLimit_within [OF True False le] assms False
      by (auto simp: fits_def getNumOr_def requestCount_def split: option.splits if_splits)
  qed
qed

lemma runCalls_no_sleep:
  "fits st (length calls) \<Longrightarrow> \<forall>r \<in> set (runCalls st calls). rl_sleep r = None"
proof (induction calls arbitrary: st)
  case Nil
  then show ?case by simp
next
  case (Cons c calls)
  obtain rq now now2 where c: "c = (rq, now, now2)" by (cases c) auto
  from Cons.prems have "fits st (Suc (length calls))" by simp
  from fits_step [OF this, of rq now now2]
  have s: "rl_sleep (rateLimitCallback st rq now now2) = None"
    and f: "fits (rl_state (rateLimitCallback st rq now now2)) (length calls)" by simp_all
  from Cons.IH [OF f] s show ?case by (simp add: c Let_def)
qed

lemma windowOk_step:
  assumes "windowOk st"
  shows "windowOk (rl_state (rateLimitCallback st rq now now2))"
proof (cases "hasContents (rq, now, now2)")
  case False
  then show ?thesis using assms by (simp add: rateLimit_skip)
next
  case True
  from assms have ts: "timer_start st \<noteq> None" by (simp add: windowOk_def)
  from assms obtain c where c: "request_count st = Some c" "1 \<le> c" "c \<le> 10"
    by (auto simp: windowOk_def split: option.splits)
  then have rc: "requestCount st = c + 1" by (auto simp: requestCount_def getNumOr_def)
  show ?thesis
  proof (cases "requestCount st > RPM_QUOTA")
    case True
    from rateLimit_over [OF \<open>hasContents (rq, now, now2)\<close> ts True] show ?thesis
      by (simp add: windowOk_def)
  next
    case False
    then have le: "requestCount st \<le> RPM_QUOTA" by simp
    from rateLimit_within [OF True ts le] show ?thesis
      using le rc c ts by (simp add: windowOk_def RPM_QUOTA_def)
  qed
qed

lemma runCalls_windowOk:
  "windowOk st \<Longrightarrow> \<forall>r \<in> set (runCalls st calls). windowOk (rl_state r)"
proof (induction calls arbitrary: st)
  case Nil
  then show ?case by simp
next
  case (Cons c calls)
  obtain rq now now2 where c: "c = (rq, now, now2)" by (cases c) auto
  have w: "windowOk (rl_state (rateLimitCallback st rq now now2))"
    by (rule windowOk_step [OF Cons.prems])
  from Cons.IH [OF w] w show ?case by (simp add: c Let_def)
qed


lemma hasContents_Some: "hasContents (Some (LlmRequest (Some cs)), now, now2)"
  by (simp add: hasContents_def)

lemma length_runCalls: "length (runCalls st calls) = length calls"
  by (induction calls arbitrary: st) (auto simp: Let_def)

lemma runCalls_counts:
  "timer_start st \<noteq> None \<Longrightarrow> request_count st = Some (of_nat k) \<Longrightarrow>
   k + length calls \<le> 10 \<Longrightarrow> list_all hasContents calls \<Longrightarrow> i < length calls \<Longrightarrow>
   request_count (rl_state (runCalls st calls ! i)) = Some (of_nat (k + i + 1))"
proof (induction calls arbitrary: st k i)
  case Nil
  then show ?case by simp
next
  case (Cons c calls)
  obtain rq now now2 where c: "c = (rq, now, now2)" by (cases c) auto
  have hc: "hasContents (rq, now, now2)" using Cons.prems(4) c by simp
  have rc: "requestCount st = of_nat (Suc k)"
    using Cons.prems(2) by (simp add: requestCount_def getNumOr_def)
  have "Suc k \<le> 10" using Cons.prems(3) by simp
  then have "of_nat (Suc k) \<le> (of_nat 10 :: rat)" by (simp only: of_nat_le_iff)
  then have le: "requestCount st \<le> RPM_QUOTA" by (simp add: rc RPM_QUOTA_def)
  let ?st' = "rl_state (rateLimitCallback st rq now now2)"
  have st': "?st' = st\<lparr>request_count := Some (of_nat (Suc k))\<rparr>"
    using rateLimit_within [OF hc Cons.prems(1) le] rc by simp
  show ?case
  proof (cases i)
    case 0
    then show ?thesis using st' by (simp add: c Let_def)
  next
    case (Suc j)
    have "request_count (rl_state (runCalls ?st' calls ! j)) = Some (of_nat (Suc k + j + 1))"
      by (rule Cons.IH) (use Cons.prems st' Suc in simp_all)
    then show ?thesis using Suc by (simp add: c Let_def)
  qed
qed

text \<open>
  Claim C1. When a request (one that carries contents, the only kind the limiter
  counts) arrives on an established window and the stored count plus one exceeds the
  quota of 10, the callback computes \<open>delay = 60 - elapsed + 1\<close>, where
  \<open>elapsed\<close> is the time since the stored \<^verbatim>\<open>timer_start\<close> (a stored start of 0 is
  falsy and the source takes the current time in its place, so nothing has elapsed). It suspends
  the caller for \<open>delay\<close> seconds exactly when \<open>delay\<close> is positive, then sets
  \<^verbatim>\<open>timer_start\<close> to the clock as read at that moment and \<^verbatim>\<open>request_count\<close> to 1,
  and resolves to \<^verbatim>\<open>undefined\<close>: the request is admitted, never refused.
\<close>

theorem rateLimit_over_quota:
  assumes "rq = Some (LlmRequest (Some cs))"
    and "timer_start st = Some t"
    and "request_count st = Some n"
    and "n + 1 > 10"
    and "elapsed = now - (if t = 0 then now else t)"
    and "delay = 60 - elapsed + 1"
  shows "rl_sleep (rateLimitCallback st rq now now2) = (if delay > 0 then Some delay else None)
       \<and> rl_state (rateLimitCallback st rq now now2)
           = st\<lparr>timer_start := Some now2, request_count := Some 1\<rparr>
       \<and> rl_return (rateLimitCallback st rq now now2) = JUndefined"
proof -
  have hc: "hasContents (rq, now, now2)" using assms(1) by (simp add: hasContents_def)
  have ts: "timer_start st \<noteq> None" using assms(2) by simp
  have rc: "requestCount st = n + 1"
    using assms(3,4) by (auto simp: requestCount_def getNumOr_def)
  have over: "requestCount st > RPM_QUOTA" using rc assms(4) by (simp add: RPM_QUOTA_def)
  have el: "elapsedSecs st now = elapsed"
    using assms(2,5) by (simp add: elapsedSecs_def getNumOr_def)
  show ?thesis
    using rateLimit_over [OF hc ts over] el assms(6) by (simp add: RATE_LIMIT_SECS_def)
qed

text \<open>
  Claim C2. On a session without a rate window the first call with a request that
  carries contents sets \<^verbatim>\<open>timer_start\<close> to the current time and
  \<^verbatim>\<open>request_count\<close> to 1 and does not wait. On an
  established window a call whose incremented count is at most 10 stores that count and
  does not wait. Hence up to 10 calls on a fresh session never wait, and the \<open>i\<close>-th of
  them leaves the count \<open>i\<close>. (\<open>requestCount st\<close> is the incremented count as the
  source computes it: the stored count, or 0 when there is none, plus one.)
\<close>

theorem rateLimit_within_quota:
  "(timer_start st = None \<longrightarrow>
      rl_state (rateLimitCallback st (Some (LlmRequest (Some cs))) now now2)
        = st\<lparr>timer_start := Some now, request_count := Some 1\<rparr>
    \<and> rl_sleep (rateLimitCallback st (Some (LlmRequest (Some cs))) now now2) = None
    \<and> rl_return (rateLimitCallback st (Some (LlmRequest (Some cs))) now now2) = JUndefined)
 \<and> (timer_start st \<noteq> None \<and> requestCount st \<le> 10 \<longrightarrow>
      rl_state (rateLimitCallback st (Some (LlmRequest (Some cs))) now now2)
        = st\<lparr>request_count := Some (requestCount st)\<rparr>
    \<and> rl_sleep (rateLimitCallback st (Some (LlmRequest (Some cs))) now now2) = None
    \<and> rl_return (rateLimitCallback st (Some (LlmRequest (Some cs))) now now2) = JUndefined)
 \<and> (timer_start st = None \<and> length calls \<le> 10 \<longrightarrow>
      (\<forall>r \<in> set (runCalls st calls). rl_sleep r = None))
 \<and> (timer_start st = None \<and> length calls \<le> 10 \<and> list_all hasContents calls \<longrightarrow>
      (\<forall>i < length calls.
         request_count (rl_state (runCalls st calls ! i)) = Some (of_nat (i + 1))))"
proof (intro conjI impI allI)
  assume "timer_start st = None \<and> length calls \<le> 10"
  then have "fits st (length calls)" by (simp add: fits_def)
  then show "\<forall>r \<in> set (runCalls st calls). rl_sleep r = None" by (rule runCalls_no_sleep)
next
  fix i
  assume a: "timer_start st = None \<and> length calls \<le> 10 \<and> list_all hasContents calls"
    and i: "i < length calls"
  then obtain c rest where Cons: "calls = c # rest" by (cases calls) auto
  obtain rq now now2 where c: "c = (rq, now, now2)" by (cases c) auto
  have hc: "hasContents (rq, now, now2)" using a Cons c by simp
  let ?st' = "rl_state (rateLimitCallback st rq now now2)"
  have st': "?st' = st\<lparr>timer_start := Some now, request_count := Some 1\<rparr>"
    using rateLimit_first [OF hc] a by simp
  show "request_count (rl_state (runCalls st calls ! i)) = Some (of_nat (i + 1))"
  proof (cases i)
    case 0
    then show ?thesis using st' by (simp add: Cons c Let_def)
  next
    case (Suc j)
    have "request_count (rl_state (runCalls ?st' rest ! j)) = Some (of_nat (1 + j + 1))"
      by (rule runCalls_counts) (use a i Cons st' Suc in simp_all)
    then show ?thesis using Suc by (simp add: Cons c Let_def)
  qed
qed (use rateLimit_first [OF hasContents_Some] rateLimit_within [OF hasContents_Some] in
      \<open>simp_all add: RPM_QUOTA_def\<close>)

text \<open>
  Claim C7. Start from a session without a rate window and let a first request that
  carries contents through the limiter, followed by any further calls. Whenever a call has returned, the stored
  \<^verbatim>\<open>request_count\<close> lies between 1 and 10. The next call increments it to at most
  11 in a local value only: a value above the quota is never stored, the reset writes 1.
\<close>

theorem request_count_invariant:
  assumes "timer_start st = None" and "hasContents c"
  shows "\<forall>r \<in> set (runCalls st (c # calls)).
           \<exists>n. request_count (rl_state r) = Some n \<and> 1 \<le> n \<and> n \<le> 10
               \<and> requestCount (rl_state r) = n + 1"
proof -
  obtain rq now now2 where c: "c = (rq, now, now2)" by (cases c) auto
  let ?st' = "rl_state (rateLimitCallback st rq now now2)"
  have st': "?st' = st\<lparr>timer_start := Some now, request_count := Some 1\<rparr>"
    using rateLimit_first [of rq now now2 st] assms c by simp
  then have w: "windowOk ?st'" by (simp add: windowOk_def)
  have all: "\<forall>r \<in> set (runCalls st (c # calls)). windowOk (rl_state r)"
    using runCalls_windowOk [OF w, of calls] w by (simp add: c Let_def)
  have "\<And>s. windowOk s \<Longrightarrow> \<exists>n. request_count s = Some n \<and> 1 \<le> n \<and> n \<le> 10
               \<and> requestCount s = n + 1"
    by (auto simp: windowOk_def requestCount_def getNumOr_def split: option.splits)
  with all show ?thesis by blast
qed

theorem rateLimit_over_quota_witness:
  "sampleRequest = Some (LlmRequest (Some sampleContents))
   \<and> timer_start fullWindow = Some 100 \<and> request_count fullWindow = Some 10
   \<and> (10::rat) + 1 > 10
   \<and> rl_sleep (rateLimitCallback fullWindow sampleRequest 130 161) = Some 31
   \<and> rl_state (rateLimitCallback fullWindow sampleRequest 130 161)
       = \<lparr>timer_start = Some 161, request_count = Some 1, customer_profile = None\<rparr>
   \<and> rl_return (rateLimitCallback fullWindow sampleRequest 130 161) = JUndefined"
  using rateLimit_over_quota [of sampleRequest sampleContents fullWindow 100 10 30 130 31 161]
  by (simp add: sampleRequest_def fullWindow_def)

theorem rateLimit_within_quota_witness:
  "timer_start emptySession = None \<and> length sampleCalls \<le> 10
   \<and> list_all hasContents sampleCalls
   \<and> rl_sleep (runCalls emptySession sampleCalls ! 0) = None
   \<and> rl_sleep (runCalls emptySession sampleCalls ! 1) = None
   \<and> rl_sleep (runCalls emptySession sampleCalls ! 2) = None
   \<and> request_count (rl_state (runCalls emptySession sampleCalls ! 0)) = Some 1
   \<and> request_count (rl_state (runCalls emptySession sampleCalls ! 1)) = Some 2
   \<and> request_count (rl_state (runCalls emptySession sampleCalls ! 2)) = Some 3"
proof -
  have p: "timer_start emptySession = None" "length sampleCalls \<le> 10"
    "list_all hasContents sampleCalls"
    by (simp_all add: emptySession_def sampleCalls_def sampleRequest_def hasContents_def)
  have len0: "length sampleCalls = 3"
    by (simp add: sampleCalls_def)
  have len: "length (runCalls emptySession sampleCalls) = 3" "length sampleCalls = 3"
    using len0 by (simp_all only: length_runCalls)
  note t = rateLimit_within_quota [of emptySession sampleContents 0 0 sampleCalls]
  have sl: "\<forall>r \<in> set (runCalls emptySession sampleCalls). rl_sleep r = None"
    using t p by blast
  have cn: "\<forall>i < length sampleCalls.
      request_count (rl_state (runCalls emptySession sampleCalls ! i)) = Some (of_nat (i + 1))"
    using t p by blast
  have s: "rl_sleep (runCalls emptySession sampleCalls ! 0) = None"
    "rl_sleep (runCalls emptySession sampleCalls ! 1) = None"
    "rl_sleep (runCalls emptySession sampleCalls ! 2) = None"
    using sl len by (simp_all add: nth_mem)
  have c: "request_count (rl_state (runCalls emptySession sampleCalls ! 0)) = Some 1"
    "request_count (rl_state (runCalls emptySession sampleCalls ! 1)) = Some 2"
    "request_count (rl_state (runCalls emptySession sampleCalls ! 2)) = Some 3"
    using cn [rule_format, of 0] cn [rule_format, of 1] cn [rule_format, of 2] len
    by simp_all
  from p s c show ?thesis by blast
qed

theorem request_count_invariant_witness:
  "timer_start emptySession = None \<and> hasContents (sampleRequest, 0, 0)
   \<and> (\<exists>n. request_count (rl_state (last (runCalls emptySession
                ((sampleRequest, 0, 0) # replicate 11 (sampleRequest, 1, 62))))) = Some n
          \<and> 1 \<le> n \<and> n \<le> 10
          \<and> requestCount (rl_state (last (runCalls emptySession
                ((sampleRequest, 0, 0) # replicate 11 (sampleRequest, 1, 62))))) = n + 1)"
proof -
  have p: "timer_start emptySession = None" "hasContents (sampleRequest, 0, 0)"
    by (simp_all add: emptySession_def sampleRequest_def hasContents_def)
  have "runCalls emptySession ((sampleRequest, 0, 0) # replicate 11 (sampleRequest, 1, 62)) \<noteq> []"
    by (simp add: Let_def)
  then have "last (runCalls emptySession ((sampleRequest, 0, 0) # replicate 11 (sampleRequest, 1, 62)))
      \<in> set (runCalls emptySession ((sampleRequest, 0, 0) # replicate 11 (sampleRequest, 1, 62)))"
    by (rule last_in_set)
  with request_count_invariant [OF p, of "replicate 11 (sampleRequest, 1, 62)"] p
  show ?thesis by blast
qed

section \<open>Properties of the customer-identity guard\<close>

lemma map_of_map_snd:
  "map_of (map (\<lambda>p. (fst p, f (snd p))) ps) k = map_option f (map_of ps k)"
  by (induction ps) auto

lemma normalizeArgs_distinct:
  assumes "distinct (map fst args)"
  shows "normalizeArgs rt args
           = map (\<lambda>p. (fst p, lowercaseValue rt (snd p)))
               (filter (\<lambda>p. fst p \<noteq> ''__proto__'') args)"
proof -
  let ?ps = "map (\<lambda>p. (fst p, lowercaseValue rt (snd p)))
               (filter (\<lambda>p. fst p \<noteq> ''__proto__'') args)"
  have d: "distinct (map fst ?ps)"
    using assms by (simp add: comp_def distinct_map_filter)
  have n: "filter (\<lambda>p. fst p \<noteq> ''__proto__'') ?ps = ?ps"
    by (rule filter_no_proto) (auto simp: comp_def)
  have "fold (\<lambda>p a. assignProp (fst p) ((\<lambda>v. v) (snd p)) a) ?ps []
          = [] @ map (\<lambda>p. (fst p, (\<lambda>v. v) (snd p))) (filter (\<lambda>p. fst p \<noteq> ''__proto__'') ?ps)"
    by (rule fold_assignProp_distinct [OF d]) simp
  then have "fold (\<lambda>p a. assignProp (fst p) (snd p) a) ?ps [] = ?ps"
    by (simp only: n) simp
  then show ?thesis
    by (simp add: normalizeArgs_def lowercaseValue_obj [OF assms])
qed

text \<open>
  For every key but \<^verbatim>\<open>__proto__\<close>, the normalized argument object has the key when
  the argument object has it, and holds under it the normalized value.
\<close>

lemma hasKey_normalizeArgs:
  "distinct (map fst args) \<Longrightarrow> k \<noteq> ''__proto__'' \<Longrightarrow>
   hasKey k (normalizeArgs rt args) = hasKey k args"
  by (auto simp: normalizeArgs_distinct hasKey_def comp_def)

lemma map_of_filter_other:
  "k \<noteq> k' \<Longrightarrow> map_of (filter (\<lambda>p. fst p \<noteq> k') ps) k = map_of ps k"
  by (induction ps) auto

lemma getKey_normalizeArgs:
  "distinct (map fst args) \<Longrightarrow> k \<noteq> ''__proto__'' \<Longrightarrow>
   getKey (normalizeArgs rt args) k = lowercaseValue rt (getKey args k)"
  by (simp add: normalizeArgs_distinct getKey_def map_of_map_snd map_of_filter_other
        split: option.splits)

lemma newCustomer_customer_id:
  "newCustomer pd = Some c \<Longrightarrow> getProp c ''customer_id'' = getProp pd ''customer_id''"
  by (auto simp: newCustomer_def getKey_def split: if_splits)

lemma newCustomer_None: "newCustomer pd = None \<longleftrightarrow> pd = JUndefined \<or> pd = JNull"
  by (simp add: newCustomer_def)

lemma validate_passes_iff:
  "fst (validateCustomerId rt cid st) \<longleftrightarrow>
     (\<exists>pj pd. customer_profile st = Some pj \<and> pj \<noteq> [] \<and> json_parse rt pj = Some pd
        \<and> pd \<noteq> JNull \<and> pd \<noteq> JUndefined \<and> strictEq cid (getProp pd ''customer_id''))"
proof (cases "customer_profile st")
  case None
  then show ?thesis by (simp add: validateCustomerId_def)
next
  case profile: (Some pj)
  show ?thesis
  proof (cases "pj = []")
    case True
    then show ?thesis using profile by (simp add: validateCustomerId_def)
  next
    case nonempty: False
    show ?thesis
    proof (cases "json_parse rt pj")
      case None
      then show ?thesis using profile nonempty by (simp add: validateCustomerId_def)
    next
      case parsed: (Some pd)
      show ?thesis
      proof (cases "newCustomer pd")
        case None
        then have "pd = JUndefined \<or> pd = JNull" by (simp add: newCustomer_None)
        then show ?thesis
          using profile nonempty parsed None by (auto simp: validateCustomerId_def)
      next
        case (Some c)
        then have "pd \<noteq> JUndefined" "pd \<noteq> JNull"
          using newCustomer_None [of pd] by auto
        then show ?thesis
          using profile nonempty parsed Some newCustomer_customer_id [OF Some]
          by (simp add: validateCustomerId_def)
      qed
    qed
  qed
qed

lemma validate_error_nonempty:
  "\<not> fst (validateCustomerId rt cid st) \<Longrightarrow>
   \<exists>msg. snd (validateCustomerId rt cid st) = Some msg \<and> msg \<noteq> []"
  by (auto simp: validateCustomerId_def noProfileMessage_def emptyProfileMessage_def
        parseErrorMessage_def mismatchMessage_def split: option.splits if_splits)

lemma validate_bound:
  assumes "customer_profile st = Some pj" "pj \<noteq> []" "json_parse rt pj = Some pd"
    "getProp pd ''customer_id'' = JStr bound"
  shows "validateCustomerId rt (JStr cid) st =
     (if cid = bound then (True, None)
      else (False, Some (''You cannot use the tool with customer_id '' @ cid @ '', only for '' @ bound @ ''.'')))"
proof -
  from assms(4) have "pd \<noteq> JUndefined" "pd \<noteq> JNull" by auto
  then obtain c where c: "newCustomer pd = Some c" using newCustomer_None [of pd] by auto
  show ?thesis
    using assms c newCustomer_customer_id [OF c]
    by (simp add: validateCustomerId_def mismatchMessage_def)
qed

lemma beforeTool_guard_fails:
  assumes "distinct (map fst args)" "hasKey ''customer_id'' args"
    "\<not> fst (validateCustomerId rt (lowercaseValue rt (getKey args ''customer_id'')) st)"
  shows "\<exists>msg. snd (validateCustomerId rt (lowercaseValue rt (getKey args ''customer_id'')) st) = Some msg
           \<and> snd (beforeTool rt tool args st) = Some (JObj [(''error'', JStr msg)])"
proof -
  from validate_error_nonempty [OF assms(3)] obtain msg where
    m: "snd (validateCustomerId rt (lowercaseValue rt (getKey args ''customer_id'')) st) = Some msg" "msg \<noteq> []"
    by blast
  have "guardError (validateCustomerId rt (lowercaseValue rt (getKey args ''customer_id'')) st) = Some msg"
    using m assms(3)
    by (cases "validateCustomerId rt (lowercaseValue rt (getKey args ''customer_id'')) st")
       (simp add: guardError_def)
  then have "snd (beforeTool rt tool args st) = Some (JObj [(''error'', JStr msg)])"
    using assms(1,2)
    by (simp add: beforeTool_def Let_def hasKey_normalizeArgs getKey_normalizeArgs)
  with m show ?thesis by blast
qed

lemma beforeTool_guard_passes:
  assumes "distinct (map fst args)" "hasKey ''customer_id'' args"
    "fst (validateCustomerId rt (lowercaseValue rt (getKey args ''customer_id'')) st)"
  shows "\<forall>msg. snd (beforeTool rt tool args st) \<noteq> Some (JObj [(''error'', JStr msg)])"
proof -
  have "guardError (validateCustomerId rt (lowercaseValue rt (getKey args ''customer_id'')) st) = None"
    using assms(3)
    by (cases "validateCustomerId rt (lowercaseValue rt (getKey args ''customer_id'')) st")
       (simp add: guardError_def split: option.splits)
  then show ?thesis
    using assms(1,2)
    by (simp add: beforeTool_def Let_def hasKey_normalizeArgs getKey_normalizeArgs approvedWithoutManager_def)
qed

lemma toLowerCase_samples:
  "toLowerCase rt ''123'' = ''123''" "toLowerCase rt ''999'' = ''999''"
  "toLowerCase rt ''ABC'' = ''abc''"
  by code_simp+

lemma beforeTool_error_iff:
  assumes "distinct (map fst args)" and "hasKey ''customer_id'' args"
  shows "(\<exists>msg. snd (beforeTool rt tool args st) = Some (JObj [(''error'', JStr msg)]))
           \<longleftrightarrow> \<not> fst (validateCustomerId rt (lowercaseValue rt (getKey args ''customer_id'')) st)"
  using beforeTool_guard_fails [OF assms, of rt st tool]
    beforeTool_guard_passes [OF assms, of rt st tool]
  by blast

text \<open>
  Claim C4, amended. \<open>beforeTool\<close> normalizes the argument object before it runs the
  guard, so the guard sees the supplied \<^verbatim>\<open>customer_id\<close> in lower case. For every
  argument object with a \<^verbatim>\<open>customer_id\<close> key and every session state, the guard passes
  (\<open>beforeTool\<close> returns no error payload) exactly when a profile is bound to the
  session, it deserializes, and the lower-cased supplied id is strictly equal to the
  \<^verbatim>\<open>customer_id\<close> of that profile. On a session bound to customer 123 a call with id
  123 passes, and a call with id 999 is answered with the error payload whose message
  names both 999 and 123. Every failure of the guard is answered with an error payload
  in place of the tool's result, so the tool does not run.
\<close>

theorem identity_guard_normalized:
  assumes "distinct (map fst args)" and "hasKey ''customer_id'' args"
  shows
    "((\<exists>msg. snd (beforeTool rt tool args st) = Some (JObj [(''error'', JStr msg)]))
        \<longleftrightarrow> \<not> (\<exists>pj pd. customer_profile st = Some pj \<and> pj \<noteq> [] \<and> json_parse rt pj = Some pd
                 \<and> pd \<noteq> JNull \<and> pd \<noteq> JUndefined
                 \<and> strictEq (lowercaseValue rt (getKey args ''customer_id''))
                      (getProp pd ''customer_id'')))
   \<and> ((\<exists>msg. snd (beforeTool rt tool args st) = Some (JObj [(''error'', JStr msg)]))
        \<longleftrightarrow> \<not> fst (validateCustomerId rt (lowercaseValue rt (getKey args ''customer_id'')) st))
   \<and> (customer_profile st = Some pj \<and> pj \<noteq> [] \<and> json_parse rt pj = Some pd
        \<and> getProp pd ''customer_id'' = JStr ''123'' \<longrightarrow>
          (getKey args ''customer_id'' = JStr ''123'' \<longrightarrow>
             (\<forall>msg. snd (beforeTool rt tool args st) \<noteq> Some (JObj [(''error'', JStr msg)])))
        \<and> (getKey args ''customer_id'' = JStr ''999'' \<longrightarrow>
             snd (beforeTool rt tool args st)
               = Some (JObj [(''error'',
                   JStr ''You cannot use the tool with customer_id 999, only for 123.'')])))"
proof (intro conjI impI)
  show "(\<exists>msg. snd (beforeTool rt tool args st) = Some (JObj [(''error'', JStr msg)]))
        \<longleftrightarrow> \<not> (\<exists>pj pd. customer_profile st = Some pj \<and> pj \<noteq> [] \<and> json_parse rt pj = Some pd
                 \<and> pd \<noteq> JNull \<and> pd \<noteq> JUndefined
                 \<and> strictEq (lowercaseValue rt (getKey args ''customer_id''))
                      (getProp pd ''customer_id''))"
    unfolding beforeTool_error_iff [OF assms] validate_passes_iff ..
next
  show "(\<exists>msg. snd (beforeTool rt tool args st) = Some (JObj [(''error'', JStr msg)]))
        \<longleftrightarrow> \<not> fst (validateCustomerId rt (lowercaseValue rt (getKey args ''customer_id'')) st)"
    by (rule beforeTool_error_iff [OF assms])
next
  assume b: "customer_profile st = Some pj \<and> pj \<noteq> [] \<and> json_parse rt pj = Some pd
        \<and> getProp pd ''customer_id'' = JStr ''123''"
    and k: "getKey args ''customer_id'' = JStr ''123''"
  have "validateCustomerId rt (JStr ''123'') st = (True, None)"
    using b validate_bound [of st pj rt pd "''123''" "''123''"] by simp
  then have "fst (validateCustomerId rt (lowercaseValue rt (getKey args ''customer_id'')) st)"
    by (simp add: k toLowerCase_samples)
  then show "\<forall>msg. snd (beforeTool rt tool args st) \<noteq> Some (JObj [(''error'', JStr msg)])"
    by (rule beforeTool_guard_passes [OF assms])
next
  assume b: "customer_profile st = Some pj \<and> pj \<noteq> [] \<and> json_parse rt pj = Some pd
        \<and> getProp pd ''customer_id'' = JStr ''123''"
    and k: "getKey args ''customer_id'' = JStr ''999''"
  have v: "validateCustomerId rt (lowercaseValue rt (getKey args ''customer_id'')) st
        = (False, Some ''You cannot use the tool with customer_id 999, only for 123.'')"
    using b validate_bound [of st pj rt pd "''123''" "''999''"]
    by (simp add: k toLowerCase_samples)
  then have "\<not> fst (validateCustomerId rt (lowercaseValue rt (getKey args ''customer_id'')) st)"
    by simp
  from beforeTool_guard_fails [OF assms this, of tool] v
  show "snd (beforeTool rt tool args st)
               = Some (JObj [(''error'',
                   JStr ''You cannot use the tool with customer_id 999, only for 123.'')])"
    by simp
qed

theorem identity_guard_normalized_witness:
  "distinct (map fst foreignArgs) \<and> hasKey ''customer_id'' foreignArgs
   \<and> customer_profile boundSession = Some sampleProfileJson \<and> sampleProfileJson \<noteq> []
   \<and> json_parse sampleRuntime sampleProfileJson = Some (JObj [(''customer_id'', JStr ''123'')])
   \<and> getKey foreignArgs ''customer_id'' = JStr ''999''
   \<and> snd (beforeTool sampleRuntime syncAskForApprovalTool foreignArgs boundSession)
       = Some (JObj [(''error'',
                      JStr ''You cannot use the tool with customer_id 999, only for 123.'')])"
proof -
  have p: "distinct (map fst foreignArgs)" "hasKey ''customer_id'' foreignArgs"
    by (simp_all add: foreignArgs_def hasKey_def)
  have q: "customer_profile boundSession = Some sampleProfileJson" "sampleProfileJson \<noteq> []"
    "json_parse sampleRuntime sampleProfileJson = Some (JObj [(''customer_id'', JStr ''123'')])"
    "getProp (JObj [(''customer_id'', JStr ''123'')]) ''customer_id'' = JStr ''123''"
    "getKey foreignArgs ''customer_id'' = JStr ''999''"
    by (simp_all add: boundSession_def sampleProfileJson_def abcProfileJson_def
          sampleRuntime_def getKey_def foreignArgs_def)
  from identity_guard_normalized [OF p, of sampleRuntime syncAskForApprovalTool boundSession
      sampleProfileJson "JObj [(''customer_id'', JStr ''123'')]"] p q
  show ?thesis by blast
qed

text \<open>
  Claim C4 as stated fails on a session bound to customer ABC: a call that supplies
  the id ABC, equal to the bound one, is refused, because the guard is given abc.
\<close>

theorem identity_guard_rejects_equal_id:
  "hasKey ''customer_id'' abcArgs
   \<and> getKey abcArgs ''customer_id'' = JStr ''ABC''
   \<and> customer_profile abcSession = Some abcProfileJson
   \<and> json_parse sampleRuntime abcProfileJson = Some (JObj [(''customer_id'', JStr ''ABC'')])
   \<and> snd (beforeTool sampleRuntime syncAskForApprovalTool abcArgs abcSession)
       = Some (JObj [(''error'',
                      JStr ''You cannot use the tool with customer_id abc, only for ABC.'')])"
proof -
  have p: "distinct (map fst abcArgs)" "hasKey ''customer_id'' abcArgs"
    "getKey abcArgs ''customer_id'' = JStr ''ABC''"
    by (simp_all add: abcArgs_def hasKey_def getKey_def)
  have q: "customer_profile abcSession = Some abcProfileJson" "abcProfileJson \<noteq> []"
    "json_parse sampleRuntime abcProfileJson = Some (JObj [(''customer_id'', JStr ''ABC'')])"
    "getProp (JObj [(''customer_id'', JStr ''ABC'')]) ''customer_id'' = JStr ''ABC''"
    by (simp_all add: abcSession_def sampleProfileJson_def abcProfileJson_def
          sampleRuntime_def getKey_def)
  have v: "validateCustomerId sampleRuntime (lowercaseValue sampleRuntime (getKey abcArgs ''customer_id'')) abcSession
        = (False, Some ''You cannot use the tool with customer_id abc, only for ABC.'')"
    using validate_bound [OF q, of "''abc''"] by (simp add: p toLowerCase_samples)
  then have "\<not> fst (validateCustomerId sampleRuntime
      (lowercaseValue sampleRuntime (getKey abcArgs ''customer_id'')) abcSession)"
    by simp
  from beforeTool_guard_fails [OF p(1,2) this, of syncAskForApprovalTool] v
  have "snd (beforeTool sampleRuntime syncAskForApprovalTool abcArgs abcSession)
       = Some (JObj [(''error'',
                      JStr ''You cannot use the tool with customer_id abc, only for ABC.'')])"
    by simp
  with p q show ?thesis by blast
qed

text \<open>
  Claim C10. When the session has the \<^verbatim>\<open>customer_profile\<close> key but the stored text
  is empty, the guard fails with the message \<^verbatim>\<open>Customer profile is empty.\<close>,
  whatever \<^verbatim>\<open>JSON.parse\<close> would do with the empty text. That message differs from
  the one for a session without a profile and from the one for a profile that does not
  deserialize, each of which the guard returns in its own case.
\<close>

theorem empty_profile_message:
  assumes "customer_profile st = Some []"
  shows "validateCustomerId rt cid st = (False, Some ''Customer profile is empty.'')
       \<and> ''Customer profile is empty.'' \<noteq> noProfileMessage
       \<and> ''Customer profile is empty.'' \<noteq> parseErrorMessage
       \<and> (\<forall>st'. customer_profile st' = None \<longrightarrow>
             validateCustomerId rt cid st' = (False, Some noProfileMessage))
       \<and> (\<forall>st' pj. customer_profile st' = Some pj \<and> pj \<noteq> [] \<and> json_parse rt pj = None \<longrightarrow>
             validateCustomerId rt cid st' = (False, Some parseErrorMessage))"
  using assms
  by (simp add: validateCustomerId_def emptyProfileMessage_def noProfileMessage_def
        parseErrorMessage_def)

theorem empty_profile_message_witness:
  "customer_profile (emptySession\<lparr>customer_profile := Some []\<rparr>) = Some []
   \<and> json_parse sampleRuntime [] = None
   \<and> validateCustomerId sampleRuntime (JStr ''123'') (emptySession\<lparr>customer_profile := Some []\<rparr>)
       = (False, Some ''Customer profile is empty.'')"
proof -
  have p: "customer_profile (emptySession\<lparr>customer_profile := Some []\<rparr>) = Some []"
    "json_parse sampleRuntime [] = None"
    by (simp_all add: sampleRuntime_def sampleProfileJson_def abcProfileJson_def)
  from empty_profile_message [OF p(1), of sampleRuntime "JStr ''123''"] p
  show ?thesis by blast
qed

lemma getCustomer_Some:
  "\<exists>c. getCustomer cid = Some c \<and> getProp c ''customer_id'' = JStr cid"
  by (simp add: getCustomer_def newCustomer_def getKey_def)

section \<open>Properties of the hooks\<close>

text \<open>
  Claim C8. On a session with no profile bound, \<open>beforeAgent\<close> loads the default
  customer, whose \<^verbatim>\<open>customer_id\<close> is 123, and stores its serialization (with indent
  4) under \<^verbatim>\<open>customer_profile\<close>, changing nothing else; on a session with a profile
  bound it leaves the state as it is.
\<close>

theorem beforeAgent_binds_default:
  "(customer_profile st = None \<longrightarrow>
      (\<exists>c. getCustomer ''123'' = Some c \<and> getProp c ''customer_id'' = JStr ''123''
           \<and> beforeAgent rt st = st\<lparr>customer_profile := Some (json_stringify rt c 4)\<rparr>))
 \<and> (customer_profile st \<noteq> None \<longrightarrow> beforeAgent rt st = st)"
proof (intro conjI impI)
  assume n: "customer_profile st = None"
  obtain c where c: "getCustomer ''123'' = Some c" "getProp c ''customer_id'' = JStr ''123''"
    using getCustomer_Some [of "''123''"] by blast
  have "beforeAgent rt st = st\<lparr>customer_profile := Some (json_stringify rt c 4)\<rparr>"
    using n c(1) by (simp add: beforeAgent_def toJson_def)
  with c show "\<exists>c. getCustomer ''123'' = Some c \<and> getProp c ''customer_id'' = JStr ''123''
           \<and> beforeAgent rt st = st\<lparr>customer_profile := Some (json_stringify rt c 4)\<rparr>"
    by blast
next
  assume "customer_profile st \<noteq> None"
  then show "beforeAgent rt st = st" by (cases "customer_profile st") (simp_all add: beforeAgent_def)
qed

theorem beforeAgent_binds_default_witness:
  "customer_profile emptySession = None \<and> customer_profile boundSession \<noteq> None
   \<and> customer_profile (beforeAgent sampleRuntime emptySession) = Some sampleProfileJson
   \<and> beforeAgent sampleRuntime boundSession = boundSession"
proof -
  have p: "customer_profile emptySession = None" "customer_profile boundSession \<noteq> None"
    by (simp_all add: emptySession_def boundSession_def)
  from beforeAgent_binds_default [of emptySession sampleRuntime] p(1)
  obtain c where "beforeAgent sampleRuntime emptySession
      = emptySession\<lparr>customer_profile := Some (json_stringify sampleRuntime c 4)\<rparr>"
    by blast
  then have "customer_profile (beforeAgent sampleRuntime emptySession) = Some sampleProfileJson"
    by (simp add: sampleRuntime_def)
  moreover have "beforeAgent sampleRuntime boundSession = boundSession"
    using beforeAgent_binds_default [of boundSession sampleRuntime] p(2) by blast
  ultimately show ?thesis using p by blast
qed

text \<open>
  Bootstrap and guard together: on a runtime whose \<^verbatim>\<open>JSON.parse\<close> reads back what
  its \<^verbatim>\<open>JSON.stringify\<close> wrote, a session bootstrapped by \<open>beforeAgent\<close> is bound
  to customer 123 as far as the guard is concerned.
\<close>

lemma bootstrap_then_guard:
  assumes "customer_profile st = None"
    and "\<And>c. json_stringify rt c 4 \<noteq> []"
    and "\<And>c. json_parse rt (json_stringify rt c 4) = Some c"
  shows "validateCustomerId rt (JStr ''123'') (beforeAgent rt st) = (True, None)"
    and "validateCustomerId rt (JStr ''999'') (beforeAgent rt st)
           = (False, Some ''You cannot use the tool with customer_id 999, only for 123.'')"
proof -
  obtain c where c: "getCustomer ''123'' = Some c" "getProp c ''customer_id'' = JStr ''123''"
    using getCustomer_Some [of "''123''"] by blast
  have b: "customer_profile (beforeAgent rt st) = Some (json_stringify rt c 4)"
    using assms(1) c(1) by (simp add: beforeAgent_def toJson_def)
  show "validateCustomerId rt (JStr ''123'') (beforeAgent rt st) = (True, None)"
    using validate_bound [OF b assms(2) assms(3) c(2), of "''123''"] by simp
  show "validateCustomerId rt (JStr ''999'') (beforeAgent rt st)
           = (False, Some ''You cannot use the tool with customer_id 999, only for 123.'')"
    using validate_bound [OF b assms(2) assms(3) c(2), of "''999''"] by simp
qed

lemma getProp_truthy: "getProp v k = JStr s \<Longrightarrow> truthy v"
  by (cases v) simp_all

text \<open>
  For every tool, argument object, session state and tool response, \<open>afterTool\<close>
  returns no override and leaves the session state as it is, so the response reaches
  the conversation unchanged. The one thing it can do is to write the placeholder line
  to the debug console, and it does that exactly when the tool's name is
  \<^verbatim>\<open>sync_ask_for_approval\<close> and the status is \<^verbatim>\<open>approved\<close>, or the name is
  \<^verbatim>\<open>approve_discount\<close> and the status is \<^verbatim>\<open>ok\<close>.
\<close>

lemma afterTool_no_override:
  "at_override (afterTool tool args st toolResponse) = None
   \<and> at_state (afterTool tool args st toolResponse) = st
   \<and> at_debug (afterTool tool args st toolResponse)
       = (if name tool = ''sync_ask_for_approval''
               \<and> getProp toolResponse ''status'' = JStr ''approved''
             \<or> name tool = ''approve_discount''
               \<and> getProp toolResponse ''status'' = JStr ''ok''
          then [''Applying discount to the cart''] else [])"
  using getProp_truthy [of toolResponse "''status''"]
  by (auto simp: afterTool_def)

text \<open>
  Claim C9. The agent registers its manager-approval tool under the name
  \<^verbatim>\<open>syncAskForApproval\<close> and its direct-approval tool under the name
  \<^verbatim>\<open>approveDiscount\<close>. For these two tools \<open>afterTool\<close> does nothing at all, also
  when the manager approval answers \<^verbatim>\<open>approved\<close> and the direct approval answers
  \<^verbatim>\<open>ok\<close>: no override, and no placeholder either. The placeholder is written
  only for tools named \<^verbatim>\<open>sync_ask_for_approval\<close> and \<^verbatim>\<open>approve_discount\<close>, names
  under which no tool is registered.
\<close>

theorem registered_tools_skip_placeholder:
  "name syncAskForApprovalTool = ''syncAskForApproval''
   \<and> name approveDiscountTool = ''approveDiscount''
   \<and> getProp (syncAskForApproval ''percentage'' 5 ''loyal customer'') ''status'' = JStr ''approved''
   \<and> getProp (approveDiscount ''percentage'' 5 ''loyal customer'') ''status'' = JStr ''ok''
   \<and> at_debug (afterTool syncAskForApprovalTool (discountArgs 5) emptySession
        (syncAskForApproval ''percentage'' 5 ''loyal customer'')) = []
   \<and> at_debug (afterTool approveDiscountTool (discountArgs 5) emptySession
        (approveDiscount ''percentage'' 5 ''loyal customer'')) = []
   \<and> at_override (afterTool syncAskForApprovalTool (discountArgs 5) emptySession
        (syncAskForApproval ''percentage'' 5 ''loyal customer'')) = None
   \<and> at_override (afterTool approveDiscountTool (discountArgs 5) emptySession
        (approveDiscount ''percentage'' 5 ''loyal customer'')) = None
   \<and> at_debug (afterTool (BaseTool ''sync_ask_for_approval'') (discountArgs 5) emptySession
        (syncAskForApproval ''percentage'' 5 ''loyal customer'')) = [''Applying discount to the cart'']
   \<and> at_debug (afterTool (BaseTool ''approve_discount'') (discountArgs 5) emptySession
        (approveDiscount ''percentage'' 5 ''loyal customer'')) = [''Applying discount to the cart'']"
  by (simp add: afterTool_def syncAskForApprovalTool_def approveDiscountTool_def
        syncAskForApproval_def approveDiscount_def getKey_def)

lemma beforeTool_no_customer_id:
  assumes "distinct (map fst args)" "\<not> hasKey ''customer_id'' args"
  shows "snd (beforeTool rt tool args st) =
     (if name tool = ''sync_ask_for_approval''
           \<and> lowercaseValue rt (getKey args ''value'') \<noteq> JUndefined
           \<and> (case toNumber rt (lowercaseValue rt (getKey args ''value'')) of
                 None \<Rightarrow> False | Some n \<Rightarrow> n \<le> 10)
      then Some approvedWithoutManager
      else if name tool = ''modify_cart''
           \<and> lowercaseValue rt (getKey args ''items_added'') = JBool True
           \<and> lowercaseValue rt (getKey args ''items_removed'') = JBool True
      then Some (JObj [(''result'', JStr ''I have added and removed the requested items.'')])
      else None)"
  using assms
  by (simp add: beforeTool_def Let_def hasKey_normalizeArgs getKey_normalizeArgs)

text \<open>
  Claim C5, amended. A discount request with a value above 10 (such as 11) and no
  \<^verbatim>\<open>customer_id\<close> argument is not short-circuited: \<open>beforeTool\<close> returns no
  override. The tool such a request then reaches, the manager approval
  \<open>syncAskForApproval\<close>, answers \<^verbatim>\<open>approved\<close> for every value. It is the
  direct approval \<open>approveDiscount\<close> that rejects exactly the values above 10.
\<close>

theorem discount_over_ten_paths:
  assumes "distinct (map fst args)" and "\<not> hasKey ''customer_id'' args"
    and "getKey args ''value'' = JNum v" and "v > 10" and "name tool \<noteq> ''modify_cart''"
  shows "snd (beforeTool rt tool args st) = None
       \<and> getProp (syncAskForApproval discountType v reason) ''status'' = JStr ''approved''
       \<and> getProp (approveDiscount discountType v reason) ''status'' = JStr ''rejected''
       \<and> (\<forall>w. getProp (approveDiscount discountType w reason) ''status''
                = (if w > 10 then JStr ''rejected'' else JStr ''ok''))"
  using assms beforeTool_no_customer_id [OF assms(1,2), of rt tool st]
  by (simp add: syncAskForApproval_def approveDiscount_def getKey_def)

theorem discount_over_ten_paths_witness:
  "distinct (map fst (discountArgs 11)) \<and> \<not> hasKey ''customer_id'' (discountArgs 11)
   \<and> getKey (discountArgs 11) ''value'' = JNum 11 \<and> (11::rat) > 10
   \<and> name syncAskForApprovalTool \<noteq> ''modify_cart''
   \<and> snd (beforeTool sampleRuntime syncAskForApprovalTool (discountArgs 11) emptySession) = None
   \<and> getProp (syncAskForApproval ''percentage'' 11 ''loyal customer'') ''status'' = JStr ''approved''
   \<and> getProp (approveDiscount ''percentage'' 11 ''loyal customer'') ''status'' = JStr ''rejected''"
proof -
  have p: "distinct (map fst (discountArgs 11))" "\<not> hasKey ''customer_id'' (discountArgs 11)"
    "getKey (discountArgs 11) ''value'' = JNum 11" "(11::rat) > 10"
    "name syncAskForApprovalTool \<noteq> ''modify_cart''"
    by (simp_all add: discountArgs_def hasKey_def getKey_def syncAskForApprovalTool_def)
  from discount_over_ten_paths [OF p, of sampleRuntime emptySession "''percentage''" "''loyal customer''"] p
  show ?thesis by blast
qed

text \<open>
  Claim C5 as stated fails at the value 11: the request is not short-circuited, and the
  manager approval it falls through to answers \<^verbatim>\<open>approved\<close>, not \<^verbatim>\<open>rejected\<close>.
\<close>

theorem manager_path_approves_eleven:
  "snd (beforeTool sampleRuntime (BaseTool ''sync_ask_for_approval'') (discountArgs 11) emptySession)
     = None
   \<and> getProp (syncAskForApproval ''percentage'' 11 ''loyal customer'') ''status'' = JStr ''approved''
   \<and> getProp (syncAskForApproval ''percentage'' 11 ''loyal customer'') ''status'' \<noteq> JStr ''rejected''"
proof -
  have d: "distinct (map fst (discountArgs 11))" "\<not> hasKey ''customer_id'' (discountArgs 11)"
    by (simp_all add: discountArgs_def hasKey_def)
  have v: "lowercaseValue sampleRuntime (getKey (discountArgs 11) ''value'') = JNum 11"
    by (simp add: discountArgs_def getKey_def)
  have "snd (beforeTool sampleRuntime (BaseTool ''sync_ask_for_approval'') (discountArgs 11) emptySession) = None"
    unfolding beforeTool_no_customer_id [OF d] v by simp
  then show ?thesis by (simp add: syncAskForApproval_def getKey_def)
qed

text \<open>
  The short-circuit of \<open>beforeTool\<close> is keyed on the tool name
  \<^verbatim>\<open>sync_ask_for_approval\<close>: under that name a value of at most 10 is approved without
  the tool.
\<close>

lemma beforeTool_short_circuit_by_literal_name:
  assumes "distinct (map fst args)" and "\<not> hasKey ''customer_id'' args"
    and "getKey args ''value'' = JNum v" and "v \<le> 10"
  shows "snd (beforeTool rt (BaseTool ''sync_ask_for_approval'') args st)
           = Some approvedWithoutManager"
  using assms beforeTool_no_customer_id [OF assms(1,2), of rt "BaseTool ''sync_ask_for_approval''" st]
  by simp

text \<open>
  Claim C6. The discount-approval-request tool of the agent is registered under the
  name \<^verbatim>\<open>syncAskForApproval\<close>. For that tool and a discount value of 5,
  \<open>beforeTool\<close> returns no override, so the tool is invoked; the canned approval is
  returned only for a tool named \<^verbatim>\<open>sync_ask_for_approval\<close>, a name under which no
  tool is registered.
\<close>

theorem registered_approval_tool_not_short_circuited:
  "name syncAskForApprovalTool = ''syncAskForApproval''
   \<and> snd (beforeTool sampleRuntime syncAskForApprovalTool (discountArgs 5) emptySession) = None
   \<and> snd (beforeTool sampleRuntime (BaseTool ''sync_ask_for_approval'') (discountArgs 5) emptySession)
       = Some approvedWithoutManager"
proof -
  have d: "distinct (map fst (discountArgs 5))" "\<not> hasKey ''customer_id'' (discountArgs 5)"
    by (simp_all add: discountArgs_def hasKey_def)
  have v: "lowercaseValue sampleRuntime (getKey (discountArgs 5) ''value'') = JNum 5"
    by (simp add: discountArgs_def getKey_def)
  show ?thesis
    unfolding beforeTool_no_customer_id [OF d] v by (simp add: syncAskForApprovalTool_def)
qed

end
